theory Spec2Isabelle
  imports Complex_Main
begin

section \<open>Local response normalization: the operation of \<open>src/ops/lrn.ts\<close>\<close>

subsection \<open>Tensors, the engine and errors\<close>

text \<open>
  Modelled from the spec: the tensor class and the engine (tensor.ts and engine.ts are
  not part of the sources). A tensor object carries its shape and the identifier of the
  buffer that holds its values, stored row-major with the channel innermost; its rank
  is the length of the shape. The engine owns the buffers: buffer \<open>i\<close> is the \<open>i\<close>-th
  entry of \<open>buffers\<close>, and a tensor is live when its buffer is among them. Numbers
  are JavaScript numbers, taken here as reals (no NaN, no infinities, no rounding).
\<close>

record tensor =
  shape :: "nat list"
  dataId :: nat

record engine =
  buffers :: "real list list"

text \<open>
  \<open>util.assert\<close> throws an error with a message; the specification names the condition
  InvalidArgument. The message is kept up to the offending value, which the source
  appends to it.
\<close>

datatype error = InvalidArgument string

text \<open>The \<open>args\<close> object handed to the kernel: \<open>{radius, bias, alpha, beta, normRegion}\<close>.\<close>

record lrn_args =
  radius :: real
  bias :: real
  alpha :: real
  beta :: real
  normRegion :: string

text \<open>
  A kernel registered under the name \<open>LRN4D\<close>: from the shape and the values of its
  rank-4 input and the arguments it computes the four dimensions and the values of a
  \<open>Tensor4D\<close>.
\<close>

type_synonym kernel = "nat list \<Rightarrow> real list \<Rightarrow> lrn_args \<Rightarrow> (nat \<times> nat \<times> nat \<times> nat) \<times> real list"

text \<open>Modelled from the spec: \<open>Tensor.rank\<close>, the number of dimensions.\<close>

definition rank :: "tensor \<Rightarrow> nat" where
  "rank x = length (shape x)"

text \<open>
  Modelled from the spec: \<open>Tensor.as4D\<close> and \<open>Tensor.as3D\<close> (tensor.ts is not part of
  the sources). The rank adaptation is pure reshaping with no data movement beyond
  metadata: the new tensor object has the new shape and the same buffer.
\<close>

definition as4D :: "tensor \<Rightarrow> nat \<Rightarrow> nat \<Rightarrow> nat \<Rightarrow> nat \<Rightarrow> tensor" where
  "as4D x rows columns depth depth2 = x\<lparr>shape := [rows, columns, depth, depth2]\<rparr>"

definition as3D :: "tensor \<Rightarrow> nat \<Rightarrow> nat \<Rightarrow> nat \<Rightarrow> tensor" where
  "as3D x rows columns depth = x\<lparr>shape := [rows, columns, depth]\<rparr>"

text \<open>
  Modelled from the spec: \<open>util.isInt\<close> (util.ts is not part of the sources): the
  number is an integer.
\<close>

definition isInt :: "real \<Rightarrow> bool" where
  "isInt a \<longleftrightarrow> a = of_int \<lfloor>a\<rfloor>"

text \<open>
  Modelled from the spec: \<open>ENV.engine.executeKernel\<close> (the engine is not part of the
  sources). The kernel reads the values of its input, which is a live tensor, allocates
  exactly one output buffer and holds no state of its own; the output is a new tensor
  on that buffer.
\<close>

definition executeKernel :: "kernel \<Rightarrow> tensor \<Rightarrow> lrn_args \<Rightarrow> engine \<Rightarrow> tensor \<times> engine" where
  "executeKernel K x args e =
     (case K (shape x) (buffers e ! dataId x) args of
        ((d0, d1, d2, d3), vals) \<Rightarrow>
          (\<lparr>shape = [d0, d1, d2, d3], dataId = length (buffers e)\<rparr>,
           e\<lparr>buffers := buffers e @ [vals]\<rparr>))"

subsection \<open>The operation\<close>

text \<open>
  \<open>LRN.localResponseNormalization\<close>, lines 43 to 68. A parameter the caller omits is
  \<open>None\<close> and takes its default. The two assertions come first, in the order of the
  source; the kernel \<open>K\<close> is the one the engine runs for \<open>LRN4D\<close>.

  The decorators of lines 41 and 42 are not part of this definition. \<open>@operation\<close>
  (operation.ts, not part of the sources) runs the body inside a scope of the engine;
  the engine of this theory is its buffers only, so what follows says nothing about
  that scope, or about any other state the engine keeps besides the buffers.
\<close>

definition localResponseNormalization ::
  "kernel \<Rightarrow> engine \<Rightarrow> tensor \<Rightarrow> real option \<Rightarrow> real option \<Rightarrow> real option \<Rightarrow> real option \<Rightarrow>
   string option \<Rightarrow> (error + tensor) \<times> engine" where
  "localResponseNormalization K e x radius_p bias_p alpha_p beta_p normRegion_p =
     (let rad = (case radius_p of None \<Rightarrow> 5 | Some v \<Rightarrow> v);
          bi = (case bias_p of None \<Rightarrow> 1 | Some v \<Rightarrow> v);
          al = (case alpha_p of None \<Rightarrow> 1 | Some v \<Rightarrow> v);
          be = (case beta_p of None \<Rightarrow> 1 / 2 | Some v \<Rightarrow> v);
          reg = (case normRegion_p of None \<Rightarrow> ''acrossChannels'' | Some v \<Rightarrow> v)
      in
      if \<not> (rank x = 4 \<or> rank x = 3) then
        (Inl (InvalidArgument ''x must be rank 3 or 4''), e)
      else if \<not> isInt rad then
        (Inl (InvalidArgument ''radius must be an integer''), e)
      else
        let reshapedTo4D = (rank x = 3);
            x4D = (if rank x = 3 then as4D x 1 (shape x ! 0) (shape x ! 1) (shape x ! 2) else x);
            (res, e') = executeKernel K x4D
                \<lparr>radius = rad, bias = bi, alpha = al, beta = be, normRegion = reg\<rparr> e
        in
        if reshapedTo4D then
          (Inr (as3D res (shape res ! 1) (shape res ! 2) (shape res ! 3)), e')
        else (Inr res, e'))"

subsection \<open>The kernel\<close>

text \<open>
  The \<open>LRN4D\<close> kernel is not part of the sources (the backends are missing); the
  definitions of this subsection model it from the specification: its numerical
  algorithm on a tensor of shape \<open>(N, H, W, C)\<close>. Argument checks are those of the
  operation above, which is where the source has them.

  The power \<open>^ beta\<close> of the specification is \<open>powr\<close> and the division is that of the
  reals. They are the kernel's power and division only where the base
  \<open>bias + alpha * sumSq\<close> is positive: for a base that is zero or negative IEEE-754
  gives an infinity, NaN or a signed power, which no real number stands for. Every
  statement about values below therefore assumes a positive base.
\<close>

text \<open>
  Modelled from the spec: the storage offset of the index \<open>(n, h, w, c)\<close> in a tensor
  of shape \<open>s = (N, H, W, C)\<close> (the tensor class is missing).
\<close>

definition offset4 :: "nat list \<Rightarrow> nat \<Rightarrow> nat \<Rightarrow> nat \<Rightarrow> nat \<Rightarrow> nat" where
  "offset4 s n h w c = ((n * s ! 1 + h) * s ! 2 + w) * s ! 3 + c"

text \<open>Modelled from the spec: the read \<open>x[n,h,w,c]\<close> of the kernel (the kernel is missing).\<close>

definition get4 :: "nat list \<Rightarrow> real list \<Rightarrow> nat \<Rightarrow> nat \<Rightarrow> nat \<Rightarrow> nat \<Rightarrow> real" where
  "get4 s vals n h w c = vals ! offset4 s n h w c"

text \<open>
  Modelled from the spec: the window of the kernel (the kernel is missing), for a
  position \<open>i\<close> on an axis of \<open>len\<close> entries, clamped at the tensor boundary:
  \<open>[max(0, i - radius), min(len - 1, i + radius)]\<close>.
\<close>

definition window :: "nat \<Rightarrow> int \<Rightarrow> nat \<Rightarrow> int list" where
  "window len r i = [max 0 (int i - r) .. min (int len - 1) (int i + r)]"

text \<open>
  Modelled from the spec: \<open>sumSq\<close> of the kernel (the kernel is missing) across
  channels, the sum of \<open>x[n,h,w,c']\<^sup>2\<close> over the channels \<open>c'\<close> of the window.
\<close>

definition sumAcrossChannels :: "nat list \<Rightarrow> real list \<Rightarrow> int \<Rightarrow> nat \<Rightarrow> nat \<Rightarrow> nat \<Rightarrow> nat \<Rightarrow> real" where
  "sumAcrossChannels s vals r n h w c =
     (\<Sum>j\<leftarrow>window (s ! 3) r c. (get4 s vals n h w (nat j))\<^sup>2)"

text \<open>
  Modelled from the spec: \<open>sumSq\<close> of the kernel (the kernel is missing) within a
  channel, the sum of \<open>x[n,h',w',c]\<^sup>2\<close> over the spatial offsets in
  \<open>[-radius, radius] \<times> [-radius, radius]\<close>, clamped to the valid positions as the
  channel window is.
\<close>

definition sumWithinChannel :: "nat list \<Rightarrow> real list \<Rightarrow> int \<Rightarrow> nat \<Rightarrow> nat \<Rightarrow> nat \<Rightarrow> nat \<Rightarrow> real" where
  "sumWithinChannel s vals r n h w c =
     (\<Sum>i\<leftarrow>window (s ! 1) r h. \<Sum>j\<leftarrow>window (s ! 2) r w. (get4 s vals n (nat i) (nat j) c)\<^sup>2)"

text \<open>
  Modelled from the spec: the output value of the kernel (the kernel is missing) at
  storage offset \<open>p\<close>, \<open>x[n,h,w,c] / (bias + alpha * sumSq) ^ beta\<close>, meaningful where
  \<open>bias + alpha * sumSq\<close> is positive. The specification gives the window for the two
  recognised regions only; here every region other than \<open>withinChannel\<close> is
  normalised across channels, the default region of the operation.
\<close>

definition lrn_value :: "nat list \<Rightarrow> real list \<Rightarrow> lrn_args \<Rightarrow> nat \<Rightarrow> real" where
  "lrn_value s vals args p =
     (let c = p mod s ! 3;
          w = (p div s ! 3) mod s ! 2;
          h = (p div (s ! 3 * s ! 2)) mod s ! 1;
          n = p div (s ! 3 * s ! 2 * s ! 1);
          r = \<lfloor>radius args\<rfloor>;
          sumSq = (if normRegion args = ''withinChannel''
                   then sumWithinChannel s vals r n h w c
                   else sumAcrossChannels s vals r n h w c);
          denom = (bias args + alpha args * sumSq) powr beta args
      in get4 s vals n h w c / denom)"

text \<open>
  Modelled from the spec: the \<open>LRN4D\<close> kernel (the backends are missing): a tensor of
  the shape of its input, with the output value at every storage offset.
\<close>

definition LRN4D :: kernel where
  "LRN4D s vals args =
     ((s ! 0, s ! 1, s ! 2, s ! 3),
      map (lrn_value s vals args) [0 ..< s ! 0 * s ! 1 * s ! 2 * s ! 3])"

subsection \<open>Notions used in the statements\<close>

text \<open>The value of a live rank-4 tensor at an index, read from its buffer.\<close>

definition tensor_get :: "engine \<Rightarrow> tensor \<Rightarrow> nat \<Rightarrow> nat \<Rightarrow> nat \<Rightarrow> nat \<Rightarrow> real" where
  "tensor_get e x n h w c = get4 (shape x) (buffers e ! dataId x) n h w c"

text \<open>
  A live tensor of the engine: its buffer exists and holds one value for each index of
  its shape.
\<close>

definition live_tensor :: "engine \<Rightarrow> tensor \<Rightarrow> bool" where
  "live_tensor e x \<longleftrightarrow>
     dataId x < length (buffers e) \<and> length (buffers e ! dataId x) = prod_list (shape x)"

text \<open>
  The contract of a kernel towards the operation, as the specification has it: on a
  rank-4 input it returns a rank-4 tensor of identical shape.
\<close>

definition kernel_preserves_shape :: "kernel \<Rightarrow> bool" where
  "kernel_preserves_shape K \<longleftrightarrow>
     (\<forall>N H W C vals args. fst (K [N, H, W, C] vals args) = (N, H, W, C))"

section \<open>Properties of the operation\<close>

subsection \<open>The paths through the operation\<close>

lemma lrn_defaults:
  "localResponseNormalization K e x rp bp ap btp regp =
   localResponseNormalization K e x
     (Some (case rp of None \<Rightarrow> 5 | Some v \<Rightarrow> v))
     (Some (case bp of None \<Rightarrow> 1 | Some v \<Rightarrow> v))
     (Some (case ap of None \<Rightarrow> 1 | Some v \<Rightarrow> v))
     (Some (case btp of None \<Rightarrow> 1 / 2 | Some v \<Rightarrow> v))
     (Some (case regp of None \<Rightarrow> ''acrossChannels'' | Some v \<Rightarrow> v))"
  by (simp add: localResponseNormalization_def)

lemma lrn_rank_fail:
  "rank x \<noteq> 4 \<Longrightarrow> rank x \<noteq> 3 \<Longrightarrow>
   localResponseNormalization K e x rp bp ap btp regp =
     (Inl (InvalidArgument ''x must be rank 3 or 4''), e)"
  by (simp add: localResponseNormalization_def)

lemma lrn_radius_fail:
  "rank x = 3 \<or> rank x = 4 \<Longrightarrow> \<not> isInt r \<Longrightarrow>
   localResponseNormalization K e x (Some r) bp ap btp regp =
     (Inl (InvalidArgument ''radius must be an integer''), e)"
  by (auto simp add: localResponseNormalization_def)

lemma lrn_rank4:
  "rank x = 4 \<Longrightarrow> isInt r \<Longrightarrow>
   localResponseNormalization K e x (Some r) (Some b) (Some a) (Some bt) (Some reg) =
     (case executeKernel K x
             \<lparr>radius = r, bias = b, alpha = a, beta = bt, normRegion = reg\<rparr> e of
        (res, e') \<Rightarrow> (Inr res, e'))"
  by (simp add: localResponseNormalization_def split: prod.splits)

lemma lrn_rank3:
  "rank x = 3 \<Longrightarrow> isInt r \<Longrightarrow>
   localResponseNormalization K e x (Some r) (Some b) (Some a) (Some bt) (Some reg) =
     (case executeKernel K (as4D x 1 (shape x ! 0) (shape x ! 1) (shape x ! 2))
             \<lparr>radius = r, bias = b, alpha = a, beta = bt, normRegion = reg\<rparr> e of
        (res, e') \<Rightarrow> (Inr (as3D res (shape res ! 1) (shape res ! 2) (shape res ! 3)), e'))"
  by (simp add: localResponseNormalization_def split: prod.splits)

lemma executeKernel_shape:
  "shape (fst (executeKernel K x args e)) =
     (case fst (K (shape x) (buffers e ! dataId x) args) of (d0, d1, d2, d3) \<Rightarrow> [d0, d1, d2, d3])"
  by (simp add: executeKernel_def split: prod.splits)

subsection \<open>Argument checks\<close>

text \<open>
  C4. An input whose rank is neither 3 nor 4 fails with InvalidArgument. The failure
  comes before any computation and before any allocation: the engine is returned as it
  was, whatever the kernel is, and no tensor is returned.
\<close>

theorem lrn_rejects_other_ranks:
  "rank x \<noteq> 3 \<Longrightarrow> rank x \<noteq> 4 \<Longrightarrow>
   localResponseNormalization K e x rp bp ap btp regp =
     (Inl (InvalidArgument ''x must be rank 3 or 4''), e)"
  by (simp add: lrn_rank_fail)

theorem lrn_rejects_other_ranks_witness:
  "rank \<lparr>shape = [2, 2], dataId = 0\<rparr> \<noteq> 3 \<and> rank \<lparr>shape = [2, 2], dataId = 0\<rparr> \<noteq> 4 \<and>
   localResponseNormalization LRN4D \<lparr>buffers = [[1, 2, 3, 4]]\<rparr> \<lparr>shape = [2, 2], dataId = 0\<rparr>
       None None None None None =
     (Inl (InvalidArgument ''x must be rank 3 or 4''), \<lparr>buffers = [[1, 2, 3, 4]]\<rparr>)"
  using lrn_rejects_other_ranks [of "\<lparr>shape = [2, 2], dataId = 0\<rparr>" LRN4D
      "\<lparr>buffers = [[1, 2, 3, 4]]\<rparr>" None None None None None]
  by (simp add: rank_def)

text \<open>
  C5, as the claim states it, fails: a negative integer radius is not rejected. With
  radius \<open>-1\<close> on a tensor of shape \<open>(1, 1, 1, 3)\<close> the operation returns a tensor and
  the engine holds a second buffer, the output's.
\<close>

theorem lrn_negative_radius_accepted:
  "fst (localResponseNormalization LRN4D \<lparr>buffers = [[1, 2, 3]]\<rparr>
          \<lparr>shape = [1, 1, 1, 3], dataId = 0\<rparr>
          (Some (- 1)) (Some 1) (Some 1) (Some (1 / 2)) (Some ''acrossChannels'')) =
     Inr \<lparr>shape = [1, 1, 1, 3], dataId = 1\<rparr> \<and>
   length (buffers (snd (localResponseNormalization LRN4D \<lparr>buffers = [[1, 2, 3]]\<rparr>
          \<lparr>shape = [1, 1, 1, 3], dataId = 0\<rparr>
          (Some (- 1)) (Some 1) (Some 1) (Some (1 / 2)) (Some ''acrossChannels'')))) = 2"
  by (simp add: localResponseNormalization_def rank_def isInt_def executeKernel_def LRN4D_def)

text \<open>
  C5, amended. On an input of rank 3 or 4, a radius that is not an integer fails with
  InvalidArgument before any computation (the engine is unchanged, whatever the kernel
  is); an integer radius, negative or not, passes the check: the operation returns a
  tensor, and the one buffer the engine gains is what the kernel computes with that
  radius.
\<close>

theorem lrn_radius_check:
  assumes "rank x = 3 \<or> rank x = 4"
  shows "(\<not> isInt r \<longrightarrow>
            localResponseNormalization K e x (Some r) (Some b) (Some a) (Some bt) (Some reg) =
              (Inl (InvalidArgument ''radius must be an integer''), e)) \<and>
         (isInt r \<longrightarrow>
            (\<exists>y. localResponseNormalization K e x (Some r) (Some b) (Some a) (Some bt) (Some reg) =
              (Inr y,
               e\<lparr>buffers := buffers e @
                  [snd (K (if rank x = 3 then [1, shape x ! 0, shape x ! 1, shape x ! 2]
                           else shape x)
                          (buffers e ! dataId x)
                          \<lparr>radius = r, bias = b, alpha = a, beta = bt, normRegion = reg\<rparr>)]\<rparr>)))"
proof (intro conjI impI)
  assume "\<not> isInt r"
  with assms show "localResponseNormalization K e x (Some r) (Some b) (Some a) (Some bt) (Some reg) =
      (Inl (InvalidArgument ''radius must be an integer''), e)"
    by (rule lrn_radius_fail)
next
  assume int: "isInt r"
  from assms show "\<exists>y. localResponseNormalization K e x (Some r) (Some b) (Some a) (Some bt) (Some reg) =
      (Inr y,
       e\<lparr>buffers := buffers e @
          [snd (K (if rank x = 3 then [1, shape x ! 0, shape x ! 1, shape x ! 2] else shape x)
                  (buffers e ! dataId x)
                  \<lparr>radius = r, bias = b, alpha = a, beta = bt, normRegion = reg\<rparr>)]\<rparr>)"
  proof
    assume "rank x = 3"
    then show ?thesis
      using int by (simp add: lrn_rank3 executeKernel_def as4D_def split: prod.splits)
  next
    assume "rank x = 4"
    then show ?thesis
      using int by (simp add: lrn_rank4 executeKernel_def split: prod.splits)
  qed
qed

theorem lrn_radius_check_witness:
  "(rank \<lparr>shape = [1, 1, 1, 3], dataId = 0\<rparr> = 3 \<or> rank \<lparr>shape = [1, 1, 1, 3], dataId = 0\<rparr> = 4) \<and>
   \<not> isInt (5 / 2) \<and>
   localResponseNormalization LRN4D \<lparr>buffers = [[1, 2, 3]]\<rparr> \<lparr>shape = [1, 1, 1, 3], dataId = 0\<rparr>
       (Some (5 / 2)) (Some 1) (Some 1) (Some (1 / 2)) (Some ''acrossChannels'') =
     (Inl (InvalidArgument ''radius must be an integer''), \<lparr>buffers = [[1, 2, 3]]\<rparr>) \<and>
   isInt (- 1) \<and>
   (\<exists>y. localResponseNormalization LRN4D \<lparr>buffers = [[1, 2, 3]]\<rparr>
          \<lparr>shape = [1, 1, 1, 3], dataId = 0\<rparr>
          (Some (- 1)) (Some 1) (Some 1) (Some (1 / 2)) (Some ''acrossChannels'') =
        (Inr y,
         \<lparr>buffers = [[1, 2, 3],
            snd (LRN4D [1, 1, 1, 3] [1, 2, 3]
              \<lparr>radius = - 1, bias = 1, alpha = 1, beta = 1 / 2,
                normRegion = ''acrossChannels''\<rparr>)]\<rparr>))"
proof -
  have rk: "rank \<lparr>shape = [1, 1, 1, 3], dataId = 0\<rparr> = 3 \<or> rank \<lparr>shape = [1, 1, 1, 3], dataId = 0\<rparr> = 4"
    by (simp add: rank_def)
  have frac: "\<not> isInt (5 / 2)" and neg: "isInt (- 1)"
    by (simp_all add: isInt_def)
  show ?thesis
    using rk frac neg
      lrn_radius_check [OF rk, of "5 / 2" LRN4D "\<lparr>buffers = [[1, 2, 3]]\<rparr>" 1 1 "1 / 2"
        "''acrossChannels''"]
      lrn_radius_check [OF rk, of "- 1" LRN4D "\<lparr>buffers = [[1, 2, 3]]\<rparr>" 1 1 "1 / 2"
        "''acrossChannels''"]
    by (simp add: rank_def)
qed

text \<open>
  C6, as the claim states it, fails: the operation has no check of the region. With
  the region \<open>diagonal\<close> it raises no error and returns a tensor.
\<close>

theorem lrn_unknown_region_accepted:
  "fst (localResponseNormalization LRN4D \<lparr>buffers = [[1, 2, 3]]\<rparr>
          \<lparr>shape = [1, 1, 1, 3], dataId = 0\<rparr>
          (Some 5) (Some 1) (Some 1) (Some (1 / 2)) (Some ''diagonal'')) =
     Inr \<lparr>shape = [1, 1, 1, 3], dataId = 1\<rparr>"
  by (simp add: localResponseNormalization_def rank_def isInt_def executeKernel_def LRN4D_def)

text \<open>
  C6, amended. The operation does not check the region (the declared type of the
  parameter admits \<open>acrossChannels\<close> and \<open>withinChannel\<close> only): for every region
  value, an input of rank 3 or 4 with an integer radius raises no error, and the one
  buffer the engine gains is what the kernel computes with that region value, passed on
  unchanged.
\<close>

theorem lrn_region_forwarded:
  assumes "rank x = 3 \<or> rank x = 4" and "isInt r"
  shows "\<exists>y. localResponseNormalization K e x (Some r) (Some b) (Some a) (Some bt) (Some reg) =
      (Inr y,
       e\<lparr>buffers := buffers e @
          [snd (K (if rank x = 3 then [1, shape x ! 0, shape x ! 1, shape x ! 2] else shape x)
                  (buffers e ! dataId x)
                  \<lparr>radius = r, bias = b, alpha = a, beta = bt, normRegion = reg\<rparr>)]\<rparr>)"
  using assms(1)
proof
  assume "rank x = 3"
  then show ?thesis
    using assms(2) by (simp add: lrn_rank3 executeKernel_def as4D_def split: prod.splits)
next
  assume "rank x = 4"
  then show ?thesis
    using assms(2) by (simp add: lrn_rank4 executeKernel_def split: prod.splits)
qed

theorem lrn_region_forwarded_witness:
  "(rank \<lparr>shape = [1, 1, 1, 3], dataId = 0\<rparr> = 3 \<or> rank \<lparr>shape = [1, 1, 1, 3], dataId = 0\<rparr> = 4) \<and>
   isInt 5 \<and>
   (\<exists>y. localResponseNormalization LRN4D \<lparr>buffers = [[1, 2, 3]]\<rparr>
          \<lparr>shape = [1, 1, 1, 3], dataId = 0\<rparr>
          (Some 5) (Some 1) (Some 1) (Some (1 / 2)) (Some ''diagonal'') =
        (Inr y,
         \<lparr>buffers = [[1, 2, 3],
            snd (LRN4D [1, 1, 1, 3] [1, 2, 3]
              \<lparr>radius = 5, bias = 1, alpha = 1, beta = 1 / 2, normRegion = ''diagonal''\<rparr>)]\<rparr>))"
proof -
  have rk: "rank \<lparr>shape = [1, 1, 1, 3], dataId = 0\<rparr> = 3 \<or> rank \<lparr>shape = [1, 1, 1, 3], dataId = 0\<rparr> = 4"
    by (simp add: rank_def)
  have int: "isInt 5"
    by (simp add: isInt_def)
  show ?thesis
    using rk int
      lrn_region_forwarded [OF rk int, of LRN4D "\<lparr>buffers = [[1, 2, 3]]\<rparr>" 1 1 "1 / 2" "''diagonal''"]
    by (simp add: rank_def)
qed

subsection \<open>Shape and rank of the result\<close>

lemma LRN4D_preserves_shape: "kernel_preserves_shape LRN4D"
  by (simp add: kernel_preserves_shape_def LRN4D_def)

lemma shape_rank3: "rank x = 3 \<Longrightarrow> \<exists>H W C. shape x = [H, W, C]"
  by (auto simp add: rank_def numeral_3_eq_3 length_Suc_conv)

lemma shape_rank4: "rank x = 4 \<Longrightarrow> \<exists>N H W C. shape x = [N, H, W, C]"
  by (auto simp add: rank_def numeral_eq_Suc length_Suc_conv)

lemma rank_as4D: "rank (as4D x a b c d) = 4"
  by (simp add: rank_def as4D_def)

lemma rank_as3D: "rank (as3D x a b c) = 3"
  by (simp add: rank_def as3D_def)

lemma executeKernel_shape4:
  assumes "kernel_preserves_shape K" and "shape x = [N, H, W, C]"
  shows "shape (fst (executeKernel K x args e)) = [N, H, W, C]"
proof -
  have "fst (K [N, H, W, C] (buffers e ! dataId x) args) = (N, H, W, C)"
    using assms(1) by (simp add: kernel_preserves_shape_def)
  then show ?thesis
    by (simp add: executeKernel_shape assms(2))
qed

text \<open>
  C1. For an input of rank 3 or 4 and an integer radius (given or the default), and a
  kernel that returns a tensor of the shape of its input, the operation returns a
  tensor, and that tensor has the rank and the dimensions of the input: a rank-3 caller
  gets a rank-3 tensor with its own three dimensions.
\<close>

theorem lrn_shape_preserved:
  assumes "kernel_preserves_shape K" and "rank x = 3 \<or> rank x = 4"
    and "isInt (case rp of None \<Rightarrow> 5 | Some v \<Rightarrow> v)"
  shows "\<exists>y e'. localResponseNormalization K e x rp bp ap btp regp = (Inr y, e') \<and>
           shape y = shape x \<and> rank y = rank x"
proof -
  define r where "r = (case rp of None \<Rightarrow> 5 | Some v \<Rightarrow> v)"
  define args where "args = \<lparr>radius = r,
      bias = (case bp of None \<Rightarrow> 1 | Some v \<Rightarrow> v),
      alpha = (case ap of None \<Rightarrow> 1 | Some v \<Rightarrow> v),
      beta = (case btp of None \<Rightarrow> 1 / 2 | Some v \<Rightarrow> v),
      normRegion = (case regp of None \<Rightarrow> ''acrossChannels'' | Some v \<Rightarrow> v)\<rparr>"
  have int: "isInt r" using assms(3) by (simp add: r_def)
  from assms(2) show ?thesis
  proof
    assume r3: "rank x = 3"
    from shape_rank3 [OF r3] obtain H W C where s: "shape x = [H, W, C]" by blast
    define x4D where "x4D = as4D x 1 (shape x ! 0) (shape x ! 1) (shape x ! 2)"
    obtain res e' where ek: "executeKernel K x4D args e = (res, e')"
      by (cases "executeKernel K x4D args e")
    have "shape x4D = [1, H, W, C]"
      by (simp add: x4D_def as4D_def s)
    from executeKernel_shape4 [OF assms(1) this, of args e] ek
    have sr: "shape res = [1, H, W, C]" by simp
    have "localResponseNormalization K e x rp bp ap btp regp =
        (Inr (as3D res (shape res ! 1) (shape res ! 2) (shape res ! 3)), e')"
      using ek unfolding x4D_def args_def
      by (subst lrn_defaults, fold r_def, subst lrn_rank3 [OF r3 int]) simp
    moreover have "shape (as3D res (shape res ! 1) (shape res ! 2) (shape res ! 3)) = shape x"
      by (simp add: as3D_def sr s)
    ultimately show ?thesis
      by (simp add: rank_def)
  next
    assume r4: "rank x = 4"
    from shape_rank4 [OF r4] obtain N H W C where s: "shape x = [N, H, W, C]" by blast
    obtain res e' where ek: "executeKernel K x args e = (res, e')"
      by (cases "executeKernel K x args e")
    from executeKernel_shape4 [OF assms(1) s, of args e] ek
    have sr: "shape res = shape x" by (simp add: s)
    have "localResponseNormalization K e x rp bp ap btp regp = (Inr res, e')"
      using ek unfolding args_def
      by (subst lrn_defaults, fold r_def, subst lrn_rank4 [OF r4 int]) simp
    with sr show ?thesis
      by (simp add: rank_def)
  qed
qed

theorem lrn_shape_preserved_witness:
  "kernel_preserves_shape LRN4D \<and>
   (rank \<lparr>shape = [1, 1, 3], dataId = 0\<rparr> = 3 \<or> rank \<lparr>shape = [1, 1, 3], dataId = 0\<rparr> = 4) \<and>
   isInt (case None of None \<Rightarrow> 5 | Some v \<Rightarrow> v) \<and>
   (\<exists>y e'. localResponseNormalization LRN4D \<lparr>buffers = [[1, 2, 3]]\<rparr>
        \<lparr>shape = [1, 1, 3], dataId = 0\<rparr> None None None None None = (Inr y, e') \<and>
      shape y = [1, 1, 3] \<and> rank y = 3)"
proof -
  have rk: "rank \<lparr>shape = [1, 1, 3], dataId = 0\<rparr> = 3 \<or> rank \<lparr>shape = [1, 1, 3], dataId = 0\<rparr> = 4"
    by (simp add: rank_def)
  have int: "isInt (case None of None \<Rightarrow> 5 | Some v \<Rightarrow> v)"
    by (simp add: isInt_def)
  show ?thesis
    using LRN4D_preserves_shape rk int
      lrn_shape_preserved [OF LRN4D_preserves_shape rk int, of "\<lparr>buffers = [[1, 2, 3]]\<rparr>"
        None None None None]
    by (auto simp add: rank_def)
qed

text \<open>
  C7. For a rank-3 input of shape \<open>(H, W, C)\<close> the operation is the same call on the
  tensor reshaped to \<open>(1, H, W, C)\<close>, whose rank is 4, with the batch dimension
  stripped from the result: an error stays the error, a result \<open>res\<close> becomes
  \<open>res.as3D(res.shape[1], res.shape[2], res.shape[3])\<close>. Every tensor returned to the
  rank-3 caller has rank 3.
\<close>

theorem lrn_rank3_round_trip:
  assumes "shape x = [H, W, C]"
  shows "localResponseNormalization K e x rp bp ap btp regp =
     (case localResponseNormalization K e (as4D x 1 H W C) rp bp ap btp regp of
        (Inl err, e') \<Rightarrow> (Inl err, e')
      | (Inr res, e') \<Rightarrow> (Inr (as3D res (shape res ! 1) (shape res ! 2) (shape res ! 3)), e')) \<and>
    shape (as4D x 1 H W C) = [1, H, W, C] \<and>
    (\<forall>y. fst (localResponseNormalization K e x rp bp ap btp regp) = Inr y \<longrightarrow> rank y = 3)"
proof (intro conjI allI impI)
  have r3: "rank x = 3" using assms by (simp add: rank_def)
  show "localResponseNormalization K e x rp bp ap btp regp =
     (case localResponseNormalization K e (as4D x 1 H W C) rp bp ap btp regp of
        (Inl err, e') \<Rightarrow> (Inl err, e')
      | (Inr res, e') \<Rightarrow> (Inr (as3D res (shape res ! 1) (shape res ! 2) (shape res ! 3)), e'))"
    using assms r3
    by (simp add: localResponseNormalization_def rank_as4D Let_def split: prod.splits)
  show "shape (as4D x 1 H W C) = [1, H, W, C]" by (simp add: as4D_def)
  fix y assume "fst (localResponseNormalization K e x rp bp ap btp regp) = Inr y"
  then show "rank y = 3"
    using r3 by (auto simp add: localResponseNormalization_def Let_def rank_as3D split: prod.splits if_splits)
qed

theorem lrn_rank3_round_trip_witness:
  "shape \<lparr>shape = [1, 1, 3], dataId = 0\<rparr> = [1, 1, 3] \<and>
   localResponseNormalization LRN4D \<lparr>buffers = [[1, 2, 3]]\<rparr> \<lparr>shape = [1, 1, 3], dataId = 0\<rparr>
       (Some 1) (Some 1) (Some 1) (Some (1 / 2)) (Some ''acrossChannels'') =
     (Inr \<lparr>shape = [1, 1, 3], dataId = 1\<rparr>,
      \<lparr>buffers = [[1, 2, 3], [1 / sqrt 6, 2 / sqrt 15, 3 / sqrt 14]]\<rparr>) \<and>
   rank \<lparr>shape = [1, 1, 3], dataId = 1\<rparr> = 3"
proof -
  have four: "localResponseNormalization LRN4D \<lparr>buffers = [[1, 2, 3]]\<rparr>
       (as4D \<lparr>shape = [1, 1, 3], dataId = 0\<rparr> 1 1 1 3)
       (Some 1) (Some 1) (Some 1) (Some (1 / 2)) (Some ''acrossChannels'') =
     (Inr \<lparr>shape = [1, 1, 1, 3], dataId = 1\<rparr>,
      \<lparr>buffers = [[1, 2, 3], [1 / sqrt 6, 2 / sqrt 15, 3 / sqrt 14]]\<rparr>)"
    by (simp add: localResponseNormalization_def rank_def as4D_def isInt_def executeKernel_def
        LRN4D_def lrn_value_def sumAcrossChannels_def window_def upto.simps get4_def offset4_def
        upt_rec powr_half_sqrt)
  have sh: "shape \<lparr>shape = [1, 1, 3], dataId = 0\<rparr> = [1, 1, 3]"
    by simp
  note rt = lrn_rank3_round_trip [OF sh, of LRN4D "\<lparr>buffers = [[1, 2, 3]]\<rparr>" "Some 1" "Some 1"
      "Some 1" "Some (1 / 2)" "Some ''acrossChannels''", THEN conjunct1]
  show ?thesis
    unfolding rt four by (simp add: as3D_def rank_def)
qed

subsection \<open>Default parameters\<close>

text \<open>
  C10. A call is the call with every omitted parameter replaced by its default:
  radius 5, bias 1, alpha 1, beta 0.5, region \<open>acrossChannels\<close>. With all five
  omitted, on an input of rank 3 or 4, the kernel runs once (the engine gains one
  buffer) and it runs on exactly these five values.
\<close>

theorem lrn_default_parameters:
  assumes "rank x = 3 \<or> rank x = 4"
  shows "localResponseNormalization K e x rp bp ap btp regp =
      localResponseNormalization K e x
        (Some (case rp of None \<Rightarrow> 5 | Some v \<Rightarrow> v))
        (Some (case bp of None \<Rightarrow> 1 | Some v \<Rightarrow> v))
        (Some (case ap of None \<Rightarrow> 1 | Some v \<Rightarrow> v))
        (Some (case btp of None \<Rightarrow> 1 / 2 | Some v \<Rightarrow> v))
        (Some (case regp of None \<Rightarrow> ''acrossChannels'' | Some v \<Rightarrow> v)) \<and>
    (\<exists>y. localResponseNormalization K e x None None None None None =
      (Inr y,
       e\<lparr>buffers := buffers e @
          [snd (K (if rank x = 3 then [1, shape x ! 0, shape x ! 1, shape x ! 2] else shape x)
                  (buffers e ! dataId x)
                  \<lparr>radius = 5, bias = 1, alpha = 1, beta = 1 / 2,
                    normRegion = ''acrossChannels''\<rparr>)]\<rparr>))"
proof
  show "localResponseNormalization K e x rp bp ap btp regp =
      localResponseNormalization K e x
        (Some (case rp of None \<Rightarrow> 5 | Some v \<Rightarrow> v))
        (Some (case bp of None \<Rightarrow> 1 | Some v \<Rightarrow> v))
        (Some (case ap of None \<Rightarrow> 1 | Some v \<Rightarrow> v))
        (Some (case btp of None \<Rightarrow> 1 / 2 | Some v \<Rightarrow> v))
        (Some (case regp of None \<Rightarrow> ''acrossChannels'' | Some v \<Rightarrow> v))"
    by (rule lrn_defaults)
  have int: "isInt 5" by (simp add: isInt_def)
  have d: "localResponseNormalization K e x None None None None None =
      localResponseNormalization K e x (Some 5) (Some 1) (Some 1) (Some (1 / 2))
        (Some ''acrossChannels'')"
    by (subst lrn_defaults) simp
  from assms show "\<exists>y. localResponseNormalization K e x None None None None None =
      (Inr y,
       e\<lparr>buffers := buffers e @
          [snd (K (if rank x = 3 then [1, shape x ! 0, shape x ! 1, shape x ! 2] else shape x)
                  (buffers e ! dataId x)
                  \<lparr>radius = 5, bias = 1, alpha = 1, beta = 1 / 2,
                    normRegion = ''acrossChannels''\<rparr>)]\<rparr>)"
  proof
    assume "rank x = 3"
    then show ?thesis
      unfolding d using int by (simp add: lrn_rank3 executeKernel_def as4D_def split: prod.splits)
  next
    assume "rank x = 4"
    then show ?thesis
      unfolding d using int by (simp add: lrn_rank4 executeKernel_def split: prod.splits)
  qed
qed

theorem lrn_default_parameters_witness:
  "(rank \<lparr>shape = [1, 1, 1, 3], dataId = 0\<rparr> = 3 \<or> rank \<lparr>shape = [1, 1, 1, 3], dataId = 0\<rparr> = 4) \<and>
   (\<exists>y. localResponseNormalization LRN4D \<lparr>buffers = [[1, 2, 3]]\<rparr>
          \<lparr>shape = [1, 1, 1, 3], dataId = 0\<rparr> None None None None None =
      (Inr y,
       \<lparr>buffers = [[1, 2, 3],
          snd (LRN4D [1, 1, 1, 3] [1, 2, 3]
            \<lparr>radius = 5, bias = 1, alpha = 1, beta = 1 / 2, normRegion = ''acrossChannels''\<rparr>)]\<rparr>))"
proof -
  have rk: "rank \<lparr>shape = [1, 1, 1, 3], dataId = 0\<rparr> = 3 \<or> rank \<lparr>shape = [1, 1, 1, 3], dataId = 0\<rparr> = 4"
    by (simp add: rank_def)
  show ?thesis
    using rk lrn_default_parameters [OF rk, of LRN4D "\<lparr>buffers = [[1, 2, 3]]\<rparr>" None None None None None,
        THEN conjunct2]
    by (simp add: rank_def)
qed

section \<open>Properties of the values\<close>

subsection \<open>Positions in the buffer\<close>

lemma offset4_less:
  assumes "n < N" "h < H" "w < W" "c < C"
  shows "offset4 [N, H, W, C] n h w c < N * H * W * C"
proof -
  have "n * H + h < N * H"
  proof -
    have "n * H + h < n * H + H" using assms(2) by simp
    also have "\<dots> = Suc n * H" by simp
    also have "\<dots> \<le> N * H" using assms(1) by (intro mult_le_mono1) simp
    finally show ?thesis .
  qed
  then have "(n * H + h) * W + w < N * H * W"
  proof -
    assume a: "n * H + h < N * H"
    have "(n * H + h) * W + w < (n * H + h) * W + W" using assms(3) by simp
    also have "\<dots> = Suc (n * H + h) * W" by simp
    also have "\<dots> \<le> (N * H) * W" using a by (intro mult_le_mono1) simp
    finally show ?thesis .
  qed
  then have "((n * H + h) * W + w) * C + c < N * H * W * C"
  proof -
    assume a: "(n * H + h) * W + w < N * H * W"
    have "((n * H + h) * W + w) * C + c < ((n * H + h) * W + w) * C + C" using assms(4) by simp
    also have "\<dots> = Suc ((n * H + h) * W + w) * C" by simp
    also have "\<dots> \<le> (N * H * W) * C" using a by (intro mult_le_mono1) simp
    finally show ?thesis .
  qed
  then show ?thesis by (simp add: offset4_def)
qed

lemma offset4_decode:
  assumes "h < H" "w < W" "c < C"
  shows "offset4 [N, H, W, C] n h w c mod C = c"
    and "(offset4 [N, H, W, C] n h w c div C) mod W = w"
    and "(offset4 [N, H, W, C] n h w c div (C * W)) mod H = h"
    and "offset4 [N, H, W, C] n h w c div (C * W * H) = n"
proof -
  let ?p = "offset4 [N, H, W, C] n h w c"
  have p: "?p = ((n * H + h) * W + w) * C + c" by (simp add: offset4_def)
  show 1: "?p mod C = c" using assms(3) by (simp add: p)
  have d1: "?p div C = (n * H + h) * W + w" using assms(3) by (simp add: p)
  show "(?p div C) mod W = w" using assms(2) by (simp add: d1)
  have d2: "?p div (C * W) = n * H + h"
    using assms(2) by (simp add: div_mult2_eq d1)
  show "(?p div (C * W)) mod H = h" using assms(1) by (simp add: d2)
  have "?p div (C * W * H) = (?p div (C * W)) div H" by (simp add: div_mult2_eq)
  then show "?p div (C * W * H) = n" using assms(1) by (simp add: d2)
qed

subsection \<open>Windows\<close>

lemma window_sum:
  "(\<Sum>j\<leftarrow>window len k i. f (nat j)) =
   (\<Sum>j\<in>{j::nat. max 0 (int i - k) \<le> int j \<and> int j \<le> min (int len - 1) (int i + k)}. f j)"
proof -
  have "(\<Sum>j\<leftarrow>window len k i. f (nat j)) =
      (\<Sum>j\<in>{max 0 (int i - k) .. min (int len - 1) (int i + k)}. f (nat j))"
    by (simp add: window_def interv_sum_list_conv_sum_set_int)
  also have "\<dots> = (\<Sum>j\<in>{j::nat. max 0 (int i - k) \<le> int j \<and> int j \<le> min (int len - 1) (int i + k)}. f j)"
    by (rule sum.reindex_bij_witness [where i = int and j = nat]) auto
  finally show ?thesis .
qed

lemma window_radius_0: "i < len \<Longrightarrow> window len 0 i = [int i]"
  by (simp add: window_def upto.simps)

lemma window_radius_exceeds:
  assumes "i < len" and "int len - 1 \<le> k"
  shows "window len k i = [0 .. int len - 1]"
proof -
  have "max 0 (int i - k) = 0" using assms by linarith
  moreover have "min (int len - 1) (int i + k) = int len - 1" using assms by linarith
  ultimately show ?thesis by (simp add: window_def)
qed

lemma window_set_real_aux:
  "{j::nat. max 0 (int i - k) \<le> int j \<and> int j \<le> min (int len - 1) (int i + k)} =
    {j::nat. max 0 (real i - of_int k) \<le> real j \<and> real j \<le> min (real len - 1) (real i + of_int k)}"
  by (auto simp add: max_def min_def split: if_splits)

lemma window_set_abs_aux:
  "{j::nat. max 0 (int i - k) \<le> int j \<and> int j \<le> min (int len - 1) (int i + k)} =
    {j::nat. j < len \<and> \<bar>real j - real i\<bar> \<le> of_int k}"
  by (auto simp add: max_def min_def abs_if split: if_splits)

lemma window_set_real:
  assumes "isInt r"
  shows "{j::nat. max 0 (int i - \<lfloor>r\<rfloor>) \<le> int j \<and> int j \<le> min (int len - 1) (int i + \<lfloor>r\<rfloor>)} =
    {j::nat. max 0 (real i - r) \<le> real j \<and> real j \<le> min (real len - 1) (real i + r)}"
proof -
  have e: "of_int \<lfloor>r\<rfloor> = r" using assms by (simp add: isInt_def)
  show ?thesis
    using window_set_real_aux [of i "\<lfloor>r\<rfloor>" len] by (simp only: e)
qed

lemma window_set_abs:
  assumes "isInt r"
  shows "{j::nat. max 0 (int i - \<lfloor>r\<rfloor>) \<le> int j \<and> int j \<le> min (int len - 1) (int i + \<lfloor>r\<rfloor>)} =
    {j::nat. j < len \<and> \<bar>real j - real i\<bar> \<le> r}"
proof -
  have e: "of_int \<lfloor>r\<rfloor> = r" using assms by (simp add: isInt_def)
  show ?thesis
    using window_set_abs_aux [of i "\<lfloor>r\<rfloor>" len] by (simp only: e)
qed

lemma sumAcrossChannels_set:
  assumes "isInt r"
  shows "sumAcrossChannels [N, H, W, C] vals \<lfloor>r\<rfloor> n h w c =
    (\<Sum>c'\<in>{c'::nat. max 0 (real c - r) \<le> real c' \<and> real c' \<le> min (real C - 1) (real c + r)}.
        (get4 [N, H, W, C] vals n h w c')\<^sup>2)"
proof -
  have "sumAcrossChannels [N, H, W, C] vals \<lfloor>r\<rfloor> n h w c =
      (\<Sum>j\<leftarrow>window C \<lfloor>r\<rfloor> c. (get4 [N, H, W, C] vals n h w (nat j))\<^sup>2)"
    by (simp add: sumAcrossChannels_def)
  also have "\<dots> = (\<Sum>j\<in>{j::nat. max 0 (int c - \<lfloor>r\<rfloor>) \<le> int j \<and>
        int j \<le> min (int C - 1) (int c + \<lfloor>r\<rfloor>)}. (get4 [N, H, W, C] vals n h w j)\<^sup>2)"
    by (rule window_sum [where f = "\<lambda>j. (get4 [N, H, W, C] vals n h w j)\<^sup>2"])
  also have "\<dots> = (\<Sum>c'\<in>{c'::nat. max 0 (real c - r) \<le> real c' \<and>
        real c' \<le> min (real C - 1) (real c + r)}. (get4 [N, H, W, C] vals n h w c')\<^sup>2)"
    by (simp only: window_set_real [OF assms])
  finally show ?thesis .
qed

lemma sumWithinChannel_set:
  assumes "isInt r"
  shows "sumWithinChannel [N, H, W, C] vals \<lfloor>r\<rfloor> n h w c =
    (\<Sum>(h', w')\<in>{(h', w'). h' < H \<and> w' < W \<and> \<bar>real h' - real h\<bar> \<le> r \<and> \<bar>real w' - real w\<bar> \<le> r}.
        (get4 [N, H, W, C] vals n h' w' c)\<^sup>2)"
proof -
  let ?A = "{j::nat. j < H \<and> \<bar>real j - real h\<bar> \<le> r}"
  let ?B = "{j::nat. j < W \<and> \<bar>real j - real w\<bar> \<le> r}"
  have "sumWithinChannel [N, H, W, C] vals \<lfloor>r\<rfloor> n h w c =
      (\<Sum>i\<in>?A. \<Sum>j\<in>?B. (get4 [N, H, W, C] vals n i j c)\<^sup>2)"
  proof -
    have inner: "(\<Sum>j\<leftarrow>window W \<lfloor>r\<rfloor> w. (get4 [N, H, W, C] vals n i (nat j) c)\<^sup>2) =
        (\<Sum>j\<in>?B. (get4 [N, H, W, C] vals n i j c)\<^sup>2)" for i
      using window_sum [where len = W and k = "\<lfloor>r\<rfloor>" and i = w
          and f = "\<lambda>j. (get4 [N, H, W, C] vals n i j c)\<^sup>2"]
      by (simp only: window_set_abs [OF assms])
    have "sumWithinChannel [N, H, W, C] vals \<lfloor>r\<rfloor> n h w c =
        (\<Sum>i\<leftarrow>window H \<lfloor>r\<rfloor> h. \<Sum>j\<in>?B. (get4 [N, H, W, C] vals n (nat i) j c)\<^sup>2)"
      by (simp add: sumWithinChannel_def inner)
    also have "\<dots> = (\<Sum>i\<in>?A. \<Sum>j\<in>?B. (get4 [N, H, W, C] vals n i j c)\<^sup>2)"
      using window_sum [where len = H and k = "\<lfloor>r\<rfloor>" and i = h
          and f = "\<lambda>i. \<Sum>j\<in>?B. (get4 [N, H, W, C] vals n i j c)\<^sup>2"]
      by (simp only: window_set_abs [OF assms])
    finally show ?thesis .
  qed
  also have "\<dots> = (\<Sum>(i, j)\<in>?A \<times> ?B. (get4 [N, H, W, C] vals n i j c)\<^sup>2)"
    by (rule sum.cartesian_product)
  also have "?A \<times> ?B =
      {(h', w'). h' < H \<and> w' < W \<and> \<bar>real h' - real h\<bar> \<le> r \<and> \<bar>real w' - real w\<bar> \<le> r}"
    by auto
  finally show ?thesis .
qed

lemma sumAcrossChannels_radius_0:
  "c < C \<Longrightarrow> sumAcrossChannels [N, H, W, C] vals 0 n h w c = (get4 [N, H, W, C] vals n h w c)\<^sup>2"
  by (simp add: sumAcrossChannels_def window_radius_0)

lemma sumWithinChannel_radius_0:
  "h < H \<Longrightarrow> w < W \<Longrightarrow>
   sumWithinChannel [N, H, W, C] vals 0 n h w c = (get4 [N, H, W, C] vals n h w c)\<^sup>2"
  by (simp add: sumWithinChannel_def window_radius_0)

subsection \<open>The operation on a rank-4 tensor\<close>

lemma lrn_value_at:
  assumes "h < H" "w < W" "c < C"
  shows "lrn_value [N, H, W, C] vals args (offset4 [N, H, W, C] n h w c) =
     get4 [N, H, W, C] vals n h w c /
       (bias args + alpha args *
          (if normRegion args = ''withinChannel''
           then sumWithinChannel [N, H, W, C] vals \<lfloor>radius args\<rfloor> n h w c
           else sumAcrossChannels [N, H, W, C] vals \<lfloor>radius args\<rfloor> n h w c)) powr beta args"
  using offset4_decode [OF assms, of N n]
  by (simp add: lrn_value_def Let_def)

lemma lrn_LRN4D_rank4:
  assumes "shape x = [N, H, W, C]" and "isInt r"
  shows "localResponseNormalization LRN4D e x (Some r) (Some b) (Some a) (Some bt) (Some reg) =
     (Inr \<lparr>shape = [N, H, W, C], dataId = length (buffers e)\<rparr>,
      e\<lparr>buffers := buffers e @
         [map (lrn_value [N, H, W, C] (buffers e ! dataId x)
                \<lparr>radius = r, bias = b, alpha = a, beta = bt, normRegion = reg\<rparr>)
              [0 ..< N * H * W * C]]\<rparr>)"
proof -
  have "rank x = 4" using assms(1) by (simp add: rank_def)
  then show ?thesis
    using assms by (simp add: lrn_rank4 executeKernel_def LRN4D_def)
qed

lemma lrn_LRN4D_get:
  assumes "shape x = [N, H, W, C]" and "isInt r"
    and "n < N" "h < H" "w < W" "c < C"
  shows "\<exists>y e'. localResponseNormalization LRN4D e x (Some r) (Some b) (Some a) (Some bt) (Some reg) =
        (Inr y, e') \<and> shape y = [N, H, W, C] \<and>
      tensor_get e' y n h w c =
        tensor_get e x n h w c /
         (b + a *
          (if reg = ''withinChannel''
           then sumWithinChannel [N, H, W, C] (buffers e ! dataId x) \<lfloor>r\<rfloor> n h w c
           else sumAcrossChannels [N, H, W, C] (buffers e ! dataId x) \<lfloor>r\<rfloor> n h w c)) powr bt"
proof -
  let ?args = "\<lparr>radius = r, bias = b, alpha = a, beta = bt, normRegion = reg\<rparr>"
  let ?p = "offset4 [N, H, W, C] n h w c"
  have lt: "?p < N * H * W * C"
    using assms(3-6) by (rule offset4_less)
  have "map (lrn_value [N, H, W, C] (buffers e ! dataId x) ?args) [0 ..< N * H * W * C] ! ?p =
      lrn_value [N, H, W, C] (buffers e ! dataId x) ?args ?p"
    using lt by simp
  also have "\<dots> = get4 [N, H, W, C] (buffers e ! dataId x) n h w c /
         (b + a *
          (if reg = ''withinChannel''
           then sumWithinChannel [N, H, W, C] (buffers e ! dataId x) \<lfloor>r\<rfloor> n h w c
           else sumAcrossChannels [N, H, W, C] (buffers e ! dataId x) \<lfloor>r\<rfloor> n h w c)) powr bt"
    using lrn_value_at [OF assms(4-6), of N "buffers e ! dataId x" ?args n] by simp
  finally show ?thesis
    unfolding lrn_LRN4D_rank4 [OF assms(1,2)]
    by (simp add: tensor_get_def get4_def assms(1))
qed

text \<open>
  C2. Across channels, on a live rank-4 tensor of shape \<open>(N, H, W, C)\<close> and with an
  integer radius, the operation returns a tensor whose value at every index
  \<open>(n, h, w, c)\<close> with a positive base \<open>bias + alpha * sumSq\<close> is
  \<open>x[n,h,w,c] / (bias + alpha * sumSq) ^ beta\<close>, where \<open>sumSq\<close> sums
  \<open>x[n,h,w,c']\<^sup>2\<close> over exactly the channels \<open>c'\<close> with
  \<open>max(0, c - radius) \<le> c' \<le> min(C - 1, c + radius)\<close>. The witness is the scenario of
  the specification, shape \<open>(1,1,1,3)\<close> with values 1, 2, 3: radius 1 gives
  \<open>1 / sqrt 6\<close>, \<open>2 / sqrt 15\<close>, \<open>3 / sqrt 14\<close>, and radius 5 gives every channel the
  whole range (\<open>sumSq = 14\<close>), as \<open>window_radius_exceeds\<close> says of any window.
\<close>

theorem lrn_across_channels:
  assumes "shape x = [N, H, W, C]" and "live_tensor e x" and "isInt r"
    and "n < N" "h < H" "w < W" "c < C"
    and "0 < b + a * (\<Sum>c'\<in>{c'::nat. max 0 (real c - r) \<le> real c' \<and>
                                      real c' \<le> min (real C - 1) (real c + r)}.
                          (tensor_get e x n h w c')\<^sup>2)"
  shows "\<exists>y e'. localResponseNormalization LRN4D e x (Some r) (Some b) (Some a) (Some bt)
          (Some ''acrossChannels'') = (Inr y, e') \<and>
      shape y = [N, H, W, C] \<and>
      tensor_get e' y n h w c =
        tensor_get e x n h w c /
          (b + a * (\<Sum>c'\<in>{c'::nat. max 0 (real c - r) \<le> real c' \<and>
                                  real c' \<le> min (real C - 1) (real c + r)}.
                       (tensor_get e x n h w c')\<^sup>2)) powr bt"
  using lrn_LRN4D_get [OF assms(1,3-7), of e b a bt "''acrossChannels''"]
  by (simp add: sumAcrossChannels_set [OF assms(3)] tensor_get_def assms(1))

theorem lrn_across_channels_witness:
  "shape \<lparr>shape = [1, 1, 1, 3], dataId = 0\<rparr> = [1, 1, 1, 3] \<and>
   live_tensor \<lparr>buffers = [[1, 2, 3]]\<rparr> \<lparr>shape = [1, 1, 1, 3], dataId = 0\<rparr> \<and>
   isInt 1 \<and>
   (0 < (1::real) + 1 * (\<Sum>c'\<in>{c'::nat. max 0 (real 0 - 1) \<le> real c' \<and> real c' \<le> min (real 3 - 1) (real 0 + 1)}.
        (tensor_get \<lparr>buffers = [[1, 2, 3]]\<rparr> \<lparr>shape = [1, 1, 1, 3], dataId = 0\<rparr> 0 0 0 c')\<^sup>2)) \<and>
   (0 < (1::real) + 1 * (\<Sum>c'\<in>{c'::nat. max 0 (real 1 - 1) \<le> real c' \<and> real c' \<le> min (real 3 - 1) (real 1 + 1)}.
        (tensor_get \<lparr>buffers = [[1, 2, 3]]\<rparr> \<lparr>shape = [1, 1, 1, 3], dataId = 0\<rparr> 0 0 0 c')\<^sup>2)) \<and>
   (0 < (1::real) + 1 * (\<Sum>c'\<in>{c'::nat. max 0 (real 2 - 1) \<le> real c' \<and> real c' \<le> min (real 3 - 1) (real 2 + 1)}.
        (tensor_get \<lparr>buffers = [[1, 2, 3]]\<rparr> \<lparr>shape = [1, 1, 1, 3], dataId = 0\<rparr> 0 0 0 c')\<^sup>2)) \<and>
   (\<exists>y e'. localResponseNormalization LRN4D \<lparr>buffers = [[1, 2, 3]]\<rparr>
        \<lparr>shape = [1, 1, 1, 3], dataId = 0\<rparr>
        (Some 1) (Some 1) (Some 1) (Some (1 / 2)) (Some ''acrossChannels'') = (Inr y, e') \<and>
      tensor_get e' y 0 0 0 0 = 1 / sqrt 6 \<and>
      tensor_get e' y 0 0 0 1 = 2 / sqrt 15 \<and>
      tensor_get e' y 0 0 0 2 = 3 / sqrt 14) \<and>
   isInt 5 \<and>
   (0 < (1::real) + 1 * (\<Sum>c'\<in>{c'::nat. max 0 (real 0 - 5) \<le> real c' \<and> real c' \<le> min (real 3 - 1) (real 0 + 5)}.
        (tensor_get \<lparr>buffers = [[1, 2, 3]]\<rparr> \<lparr>shape = [1, 1, 1, 3], dataId = 0\<rparr> 0 0 0 c')\<^sup>2)) \<and>
   (0 < (1::real) + 1 * (\<Sum>c'\<in>{c'::nat. max 0 (real 2 - 5) \<le> real c' \<and> real c' \<le> min (real 3 - 1) (real 2 + 5)}.
        (tensor_get \<lparr>buffers = [[1, 2, 3]]\<rparr> \<lparr>shape = [1, 1, 1, 3], dataId = 0\<rparr> 0 0 0 c')\<^sup>2)) \<and>
   (\<exists>y e'. localResponseNormalization LRN4D \<lparr>buffers = [[1, 2, 3]]\<rparr>
        \<lparr>shape = [1, 1, 1, 3], dataId = 0\<rparr>
        (Some 5) (Some 1) (Some 1) (Some (1 / 2)) (Some ''acrossChannels'') = (Inr y, e') \<and>
      tensor_get e' y 0 0 0 0 = 1 / sqrt 15 \<and>
      tensor_get e' y 0 0 0 2 = 3 / sqrt 15)"
proof -
  let ?x = "\<lparr>shape = [1, 1, 1, 3], dataId = 0\<rparr>"
  let ?e = "\<lparr>buffers = [[1, 2, 3 :: real]]\<rparr>"
  have sh: "shape ?x = [1, 1, 1, 3]" by simp
  have live: "live_tensor ?e ?x" by (simp add: live_tensor_def)
  have int: "isInt 1" by (simp add: isInt_def)
  have pos: "0 < (1::real) + 1 * (\<Sum>c'\<in>S. (tensor_get ?e ?x 0 0 0 c')\<^sup>2)" for S :: "nat set"
    by (intro add_pos_nonneg mult_nonneg_nonneg sum_nonneg) simp_all
  have w0: "{c'::nat. max 0 (real 0 - 1) \<le> real c' \<and> real c' \<le> min (real 3 - 1) (real 0 + 1)} = {0, 1}"
    by auto
  have w1: "{c'::nat. max 0 (real 1 - 1) \<le> real c' \<and> real c' \<le> min (real 3 - 1) (real 1 + 1)} = {0, 1, 2}"
    by auto
  have w2: "{c'::nat. max 0 (real 2 - 1) \<le> real c' \<and> real c' \<le> min (real 3 - 1) (real 2 + 1)} = {1, 2}"
    by auto
  have g: "tensor_get ?e ?x 0 0 0 0 = 1" "tensor_get ?e ?x 0 0 0 1 = 2" "tensor_get ?e ?x 0 0 0 2 = 3"
    by (simp_all add: tensor_get_def get4_def offset4_def)
  note th = lrn_across_channels [OF sh live int, of 0 0 0 _ 1 1 "1 / 2"]
  from th [of 0, OF _ _ _ _ pos] obtain y e' where
    call: "localResponseNormalization LRN4D ?e ?x (Some 1) (Some 1) (Some 1) (Some (1 / 2))
        (Some ''acrossChannels'') = (Inr y, e')"
    and v0: "tensor_get e' y 0 0 0 0 = 1 / sqrt 6"
    unfolding w0 by (auto simp add: g powr_half_sqrt simp del: One_nat_def)
  from th [of 1, OF _ _ _ _ pos] call have v1: "tensor_get e' y 0 0 0 1 = 2 / sqrt 15"
    unfolding w1 by (auto simp add: g powr_half_sqrt simp del: One_nat_def)
  from th [of 2, OF _ _ _ _ pos] call have v2: "tensor_get e' y 0 0 0 2 = 3 / sqrt 14"
    unfolding w2 by (auto simp add: g powr_half_sqrt simp del: One_nat_def)
  have int5: "isInt 5" by (simp add: isInt_def)
  have f0: "{c'::nat. max 0 (real 0 - 5) \<le> real c' \<and> real c' \<le> min (real 3 - 1) (real 0 + 5)} = {0, 1, 2}"
    by auto
  have f2: "{c'::nat. max 0 (real 2 - 5) \<le> real c' \<and> real c' \<le> min (real 3 - 1) (real 2 + 5)} = {0, 1, 2}"
    by auto
  note th5 = lrn_across_channels [OF sh live int5, of 0 0 0 _ 1 1 "1 / 2"]
  from th5 [of 0, OF _ _ _ _ pos] obtain z e'' where
    call5: "localResponseNormalization LRN4D ?e ?x (Some 5) (Some 1) (Some 1) (Some (1 / 2))
        (Some ''acrossChannels'') = (Inr z, e'')"
    and u0: "tensor_get e'' z 0 0 0 0 = 1 / sqrt 15"
    unfolding f0 by (auto simp add: g powr_half_sqrt simp del: One_nat_def)
  from th5 [of 2, OF _ _ _ _ pos] call5 have u2: "tensor_get e'' z 0 0 0 2 = 3 / sqrt 15"
    unfolding f2 by (auto simp add: g powr_half_sqrt simp del: One_nat_def)
  from sh live int call v0 v1 v2 int5 call5 u0 u2 pos show ?thesis
    by blast
qed

text \<open>
  C3. Within a channel, the value at every index \<open>(n, h, w, c)\<close> with a positive base
  \<open>bias + alpha * sumSq\<close> is \<open>x[n,h,w,c] / (bias + alpha * sumSq) ^ beta\<close>, where \<open>sumSq\<close> sums \<open>x[n,h',w',c]\<^sup>2\<close>
  over the positions \<open>(h', w')\<close> of the tensor (\<open>h' < H\<close>, \<open>w' < W\<close>) that lie at an
  offset of at most \<open>radius\<close> from \<open>(h, w)\<close> on each axis, each position counted once.
\<close>

theorem lrn_within_channel:
  assumes "shape x = [N, H, W, C]" and "live_tensor e x" and "isInt r"
    and "n < N" "h < H" "w < W" "c < C"
    and "0 < b + a * (\<Sum>(h', w')\<in>{(h', w'). h' < H \<and> w' < W \<and>
                                      \<bar>real h' - real h\<bar> \<le> r \<and> \<bar>real w' - real w\<bar> \<le> r}.
                          (tensor_get e x n h' w' c)\<^sup>2)"
  shows "\<exists>y e'. localResponseNormalization LRN4D e x (Some r) (Some b) (Some a) (Some bt)
          (Some ''withinChannel'') = (Inr y, e') \<and>
      shape y = [N, H, W, C] \<and>
      tensor_get e' y n h w c =
        tensor_get e x n h w c /
          (b + a * (\<Sum>(h', w')\<in>{(h', w'). h' < H \<and> w' < W \<and>
                                      \<bar>real h' - real h\<bar> \<le> r \<and> \<bar>real w' - real w\<bar> \<le> r}.
                       (tensor_get e x n h' w' c)\<^sup>2)) powr bt"
  using lrn_LRN4D_get [OF assms(1,3-7), of e b a bt "''withinChannel''"]
  by (simp add: sumWithinChannel_set [OF assms(3)] tensor_get_def assms(1))

theorem lrn_within_channel_witness:
  "shape \<lparr>shape = [1, 2, 2, 1], dataId = 0\<rparr> = [1, 2, 2, 1] \<and>
   live_tensor \<lparr>buffers = [[1, 2, 3, 4]]\<rparr> \<lparr>shape = [1, 2, 2, 1], dataId = 0\<rparr> \<and>
   isInt 1 \<and>
   (0 < (1::real) + 1 * (\<Sum>(h', w')\<in>{(h', w'). h' < 2 \<and> w' < 2 \<and> \<bar>real h' - real 0\<bar> \<le> 1 \<and> \<bar>real w' - real 0\<bar> \<le> 1}.
        (tensor_get \<lparr>buffers = [[1, 2, 3, 4]]\<rparr> \<lparr>shape = [1, 2, 2, 1], dataId = 0\<rparr> 0 h' w' 0)\<^sup>2)) \<and>
   (0 < (1::real) + 1 * (\<Sum>(h', w')\<in>{(h', w'). h' < 2 \<and> w' < 2 \<and> \<bar>real h' - real 1\<bar> \<le> 1 \<and> \<bar>real w' - real 1\<bar> \<le> 1}.
        (tensor_get \<lparr>buffers = [[1, 2, 3, 4]]\<rparr> \<lparr>shape = [1, 2, 2, 1], dataId = 0\<rparr> 0 h' w' 0)\<^sup>2)) \<and>
   (\<exists>y e'. localResponseNormalization LRN4D \<lparr>buffers = [[1, 2, 3, 4]]\<rparr>
        \<lparr>shape = [1, 2, 2, 1], dataId = 0\<rparr>
        (Some 1) (Some 1) (Some 1) (Some (1 / 2)) (Some ''withinChannel'') = (Inr y, e') \<and>
      tensor_get e' y 0 0 0 0 = 1 / sqrt 31 \<and>
      tensor_get e' y 0 1 1 0 = 4 / sqrt 31)"
proof -
  let ?x = "\<lparr>shape = [1, 2, 2, 1], dataId = 0\<rparr>"
  let ?e = "\<lparr>buffers = [[1, 2, 3, 4 :: real]]\<rparr>"
  have sh: "shape ?x = [1, 2, 2, 1]" by simp
  have live: "live_tensor ?e ?x" by (simp add: live_tensor_def)
  have int: "isInt 1" by (simp add: isInt_def)
  have pos: "0 < (1::real) + 1 * (\<Sum>(h', w')\<in>S. (tensor_get ?e ?x 0 h' w' 0)\<^sup>2)"
    for S :: "(nat \<times> nat) set"
    by (intro add_pos_nonneg mult_nonneg_nonneg sum_nonneg) auto
  have lt2: "\<And>j::nat. j < 2 \<longleftrightarrow> j = 0 \<or> j = 1" by auto
  have w0: "{(h'::nat, w'::nat). h' < 2 \<and> w' < 2 \<and> \<bar>real h' - real 0\<bar> \<le> 1 \<and> \<bar>real w' - real 0\<bar> \<le> 1} =
      {(0, 0), (0, 1), (1, 0), (1, 1)}"
    by (auto simp add: lt2)
  have w1: "{(h'::nat, w'::nat). h' < 2 \<and> w' < 2 \<and> \<bar>real h' - real 1\<bar> \<le> 1 \<and> \<bar>real w' - real 1\<bar> \<le> 1} =
      {(0, 0), (0, 1), (1, 0), (1, 1)}"
    by (auto simp add: lt2)
  have g: "tensor_get ?e ?x 0 0 0 0 = 1" "tensor_get ?e ?x 0 0 1 0 = 2"
      "tensor_get ?e ?x 0 1 0 0 = 3" "tensor_get ?e ?x 0 1 1 0 = 4"
    by (simp_all add: tensor_get_def get4_def offset4_def)
  note th = lrn_within_channel [OF sh live int, of 0 _ _ 0 1 1 "1 / 2"]
  from th [of 0 0, OF _ _ _ _ pos] obtain y e' where
    call: "localResponseNormalization LRN4D ?e ?x (Some 1) (Some 1) (Some 1) (Some (1 / 2))
        (Some ''withinChannel'') = (Inr y, e')"
    and v0: "tensor_get e' y 0 0 0 0 = 1 / sqrt 31"
    unfolding w0 by (auto simp add: g powr_half_sqrt simp del: One_nat_def)
  from th [of 1 1, OF _ _ _ _ pos] call have v1: "tensor_get e' y 0 1 1 0 = 4 / sqrt 31"
    unfolding w1 by (auto simp add: g powr_half_sqrt simp del: One_nat_def)
  from sh live int call v0 v1 pos show ?thesis
    by blast
qed

text \<open>
  C8. With radius 0 both regions give the same elementwise formula: the value at
  every index \<open>(n, h, w, c)\<close> with a positive base \<open>bias + alpha * x[n,h,w,c]\<^sup>2\<close> is
  \<open>x[n,h,w,c] / (bias + alpha * x[n,h,w,c]\<^sup>2) ^ beta\<close>.
\<close>

theorem lrn_radius_zero:
  assumes "shape x = [N, H, W, C]" and "live_tensor e x"
    and "n < N" "h < H" "w < W" "c < C"
    and "reg = ''acrossChannels'' \<or> reg = ''withinChannel''"
    and "0 < b + a * (tensor_get e x n h w c)\<^sup>2"
  shows "\<exists>y e'. localResponseNormalization LRN4D e x (Some 0) (Some b) (Some a) (Some bt)
          (Some reg) = (Inr y, e') \<and>
      shape y = [N, H, W, C] \<and>
      tensor_get e' y n h w c =
        tensor_get e x n h w c / (b + a * (tensor_get e x n h w c)\<^sup>2) powr bt"
proof -
  have int: "isInt 0" by (simp add: isInt_def)
  have fl: "\<lfloor>0::real\<rfloor> = 0" by simp
  have "(if reg = ''withinChannel''
         then sumWithinChannel [N, H, W, C] (buffers e ! dataId x) 0 n h w c
         else sumAcrossChannels [N, H, W, C] (buffers e ! dataId x) 0 n h w c) =
        (tensor_get e x n h w c)\<^sup>2"
    using assms(4-6)
    by (simp add: sumAcrossChannels_radius_0 sumWithinChannel_radius_0 tensor_get_def assms(1))
  then show ?thesis
    using lrn_LRN4D_get [OF assms(1) int assms(3-6), of e b a bt reg]
    unfolding fl by simp
qed

theorem lrn_radius_zero_witness:
  "shape \<lparr>shape = [1, 1, 1, 3], dataId = 0\<rparr> = [1, 1, 1, 3] \<and>
   live_tensor \<lparr>buffers = [[1, 2, 3]]\<rparr> \<lparr>shape = [1, 1, 1, 3], dataId = 0\<rparr> \<and>
   0 < (1::real) + 1 * (tensor_get \<lparr>buffers = [[1, 2, 3]]\<rparr>
        \<lparr>shape = [1, 1, 1, 3], dataId = 0\<rparr> 0 0 0 1)\<^sup>2 \<and>
   (\<exists>y e'. localResponseNormalization LRN4D \<lparr>buffers = [[1, 2, 3]]\<rparr>
        \<lparr>shape = [1, 1, 1, 3], dataId = 0\<rparr>
        (Some 0) (Some 1) (Some 1) (Some (1 / 2)) (Some ''acrossChannels'') = (Inr y, e') \<and>
      tensor_get e' y 0 0 0 1 = 2 / sqrt 5) \<and>
   (\<exists>y e'. localResponseNormalization LRN4D \<lparr>buffers = [[1, 2, 3]]\<rparr>
        \<lparr>shape = [1, 1, 1, 3], dataId = 0\<rparr>
        (Some 0) (Some 1) (Some 1) (Some (1 / 2)) (Some ''withinChannel'') = (Inr y, e') \<and>
      tensor_get e' y 0 0 0 1 = 2 / sqrt 5)"
proof -
  let ?x = "\<lparr>shape = [1, 1, 1, 3], dataId = 0\<rparr>"
  let ?e = "\<lparr>buffers = [[1, 2, 3 :: real]]\<rparr>"
  have sh: "shape ?x = [1, 1, 1, 3]" by simp
  have live: "live_tensor ?e ?x" by (simp add: live_tensor_def)
  have g: "tensor_get ?e ?x 0 0 0 1 = 2"
    by (simp add: tensor_get_def get4_def offset4_def)
  have pos: "0 < (1::real) + 1 * (tensor_get ?e ?x 0 0 0 1)\<^sup>2"
    by (intro add_pos_nonneg mult_nonneg_nonneg) simp_all
  note th = lrn_radius_zero [OF sh live, of 0 0 0 1 _ 1 1 "1 / 2"]
  have a: "\<exists>y e'. localResponseNormalization LRN4D ?e ?x
        (Some 0) (Some 1) (Some 1) (Some (1 / 2)) (Some ''acrossChannels'') = (Inr y, e') \<and>
      tensor_get e' y 0 0 0 1 = 2 / sqrt 5"
    using th [of "''acrossChannels''", OF _ _ _ _ _ pos] by (auto simp add: g powr_half_sqrt simp del: One_nat_def)
  have b: "\<exists>y e'. localResponseNormalization LRN4D ?e ?x
        (Some 0) (Some 1) (Some 1) (Some (1 / 2)) (Some ''withinChannel'') = (Inr y, e') \<and>
      tensor_get e' y 0 0 0 1 = 2 / sqrt 5"
    using th [of "''withinChannel''", OF _ _ _ _ _ pos] by (auto simp add: g powr_half_sqrt simp del: One_nat_def)
  from sh live pos a b show ?thesis
    by blast
qed

end
